theory Spec2Isabelle
  imports Complex_Main
begin

section \<open>Python values, exceptions, frames and trace events\<close>

text \<open>
  The module \<^verbatim>\<open>devtools/debugger.py\<close> looks at a Python object in two ways only: it
  formats it into an f-string (\<^verbatim>\<open>str\<close>) and it calls \<^verbatim>\<open>repr\<close> on it. Both may raise,
  so an object is the pair of the two outcomes. Exceptions are values; \<open>is_Exception\<close>
  says which of them an \<^verbatim>\<open>except Exception\<close> clause catches.
\<close>

datatype exc =
    IndexError
  | TypeError
  | UnboundLocalError
  | EOFError
  | UserException string
  | KeyboardInterrupt
  | SystemExit int

fun is_Exception :: "exc \<Rightarrow> bool" where
  "is_Exception KeyboardInterrupt = False"
| "is_Exception (SystemExit status) = False"
| "is_Exception e = True"

datatype pyval = PyObject (py_str: "exc + string") (py_repr: "exc + string")

definition py_None :: pyval where
  "py_None = PyObject (Inr ''None'') (Inr ''None'')"

text \<open>
  A decorated function: \<^verbatim>\<open>func.__name__\<close>, the text of \<^verbatim>\<open>inspect.signature(func)\<close>
  and the identity of its code object.
\<close>

record func =
  fn_name :: string
  fn_signature :: string
  fn_code :: nat

text \<open>
  A frame as an event shows it: the identity of the frame object, the identity and the
  name of its code object, the current line, the local bindings in insertion order and
  the source line that \<^verbatim>\<open>inspect.getframeinfo\<close> finds (\<open>None\<close> when the source is not
  available).
\<close>

record frame =
  f_id :: nat
  co_id :: nat
  co_name :: string
  f_lineno :: int
  f_locals :: "(string \<times> pyval) list"
  code_context :: "string option"

datatype event = Call | Line | Return | Exception | Opcode

section \<open>The tree of the tracer and the console\<close>

text \<open>
  A \<^verbatim>\<open>rich.tree.Tree\<close> is a mutable object with a label and an ordered list of children;
  \<^verbatim>\<open>CALL_STACK\<close> and \<^verbatim>\<open>DEBUG_TREE\<close> hold references to such objects, so the trees live in
  a store and are named by their address. A label is one of the four f-strings of the
  module, kept as a constructor with the interpolated fields:
  \<^item> \<open>Function_Called s\<close>: \<^verbatim>\<open>[bold cyan]... Function Called: {s}[/bold cyan]\<close>
  \<^item> \<open>Return_Label s\<close>: \<^verbatim>\<open>[bold green]... Return:[/bold green] {s}\<close>
  \<^item> \<open>Line_In n f\<close>: \<^verbatim>\<open>[blue]Line {n} in `{f}`[/blue]\<close>
  \<^item> \<open>Var_Entry x s\<close>: \<^verbatim>\<open>[magenta]{x}[/magenta]: [yellow]{s}[/yellow]\<close>
\<close>

type_synonym addr = nat

datatype label =
    Function_Called string
  | Return_Label string
  | Line_In int string
  | Var_Entry string string

datatype child = Leaf label | Node addr

record tree =
  tree_label :: label
  children :: "child list"

text \<open>\<^verbatim>\<open>t.add(c)\<close> on the object at address \<open>a\<close>.\<close>

definition tree_add :: "tree list \<Rightarrow> addr \<Rightarrow> child \<Rightarrow> tree list" where
  "tree_add h a c = h[a := (h ! a)\<lparr>children := children (h ! a) @ [c]\<rparr>]"

text \<open>
  What the module sends to \<^verbatim>\<open>console\<close>. A printed tree is the root's address with the
  store at that moment; the execution time is the number of hundredths of a
  millisecond that \<^verbatim>\<open>{execution_time:.2f}\<close> shows.
\<close>

datatype out =
    Executing_Line int string
  | No_Locals
  | Table "(string \<times> string) list"
  | Breakpoint_Hit int
  | Prompt
  | Debugging_Stopped
  | Tree_Printed addr "tree list"
  | Execution_Time int

section \<open>The interpreter state\<close>

text \<open>
  The trace functions are closures; a closure is named by the function that defines it
  and the variables it captures.
\<close>

datatype tracefn =
    Trace_calls func
  | Trace_lines func
  | Debug_trace_calls func "int option"

text \<open>
  \<open>CALL_STACK\<close>, \<open>DEBUG_TREE\<close>: the module's globals, with the store \<open>heap\<close> of the
  trees. \<open>settrace\<close>: the function registered with \<^verbatim>\<open>sys.settrace\<close>. \<open>f_trace\<close>: the
  local trace function of each frame. \<open>step_mode\<close>: the variable of that name of the
  running \<^verbatim>\<open>_debug_function_sync\<close> (or \<^verbatim>\<open>_async\<close>). \<open>stdin\<close>: the lines the operator will
  type. \<open>console\<close>: everything printed so far.
\<close>

record world =
  CALL_STACK :: "addr list"
  DEBUG_TREE :: "addr option"
  heap :: "tree list"
  settrace :: "tracefn option"
  f_trace :: "nat \<Rightarrow> tracefn option"
  step_mode :: bool
  stdin :: "string list"
  console :: "out list"

type_synonym 'a result = "(exc + 'a) \<times> world"

definition print :: "out \<Rightarrow> world \<Rightarrow> world" where
  "print x w = w\<lparr>console := console w @ [x]\<rparr>"

section \<open>dbg: the tree tracer\<close>

text \<open>
  \<^verbatim>\<open>trace_calls\<close> of \<^verbatim>\<open>dbg\<close> (lines 23-47). The frame is compared with the function by
  name. On \<^verbatim>\<open>"return"\<close>, \<^verbatim>\<open>CALL_STACK[-1]\<close> is evaluated before the f-string, so an empty
  stack raises \<^verbatim>\<open>IndexError\<close> first.
\<close>

definition trace_calls :: "func \<Rightarrow> frame \<Rightarrow> event \<Rightarrow> pyval \<Rightarrow> world \<Rightarrow> tracefn option result" where
  "trace_calls func frame event arg w =
    (if co_name frame = fn_name func then
       (if event = Call then
          (let full_signature = fn_name func @ fn_signature func;
               node = length (heap w);
               h1 = heap w @ [\<lparr>tree_label = Function_Called full_signature, children = []\<rparr>];
               w1 = (if CALL_STACK w \<noteq> []
                     then w\<lparr>heap := tree_add h1 (last (CALL_STACK w)) (Node node)\<rparr>
                     else w\<lparr>heap := h1, DEBUG_TREE := Some node\<rparr>)
           in (Inr (Some (Trace_lines func)), w1\<lparr>CALL_STACK := CALL_STACK w1 @ [node]\<rparr>))
        else if event = Return then
          (if CALL_STACK w = [] then (Inl IndexError, w)
           else (case py_str arg of
                   Inl e \<Rightarrow> (Inl e, w)
                 | Inr s \<Rightarrow>
                     (Inr (Some (Trace_lines func)),
                      w\<lparr>heap := tree_add (heap w) (last (CALL_STACK w)) (Leaf (Return_Label s)),
                        CALL_STACK := butlast (CALL_STACK w)\<rparr>)))
        else (Inr (Some (Trace_lines func)), w))
     else (Inr None, w))"

text \<open>
  The loop of \<^verbatim>\<open>trace_lines\<close> over \<^verbatim>\<open>local_vars.items()\<close> (lines 56-57): \<^verbatim>\<open>repr(val)\<close> is
  not guarded, so the first value whose \<^verbatim>\<open>repr\<close> raises ends the loop with that
  exception.
\<close>

fun add_vars :: "addr \<Rightarrow> (string \<times> pyval) list \<Rightarrow> tree list \<Rightarrow> exc option \<times> tree list" where
  "add_vars vars_tree [] h = (None, h)"
| "add_vars vars_tree ((var, val) # rest) h =
    (case py_repr val of
       Inl e \<Rightarrow> (Some e, h)
     | Inr s \<Rightarrow> add_vars vars_tree rest (tree_add h vars_tree (Leaf (Var_Entry var s))))"

text \<open>\<^verbatim>\<open>trace_lines\<close> of \<^verbatim>\<open>dbg\<close> (lines 49-60).\<close>

definition trace_lines :: "func \<Rightarrow> frame \<Rightarrow> event \<Rightarrow> pyval \<Rightarrow> world \<Rightarrow> tracefn option result" where
  "trace_lines func frame event arg w =
    (if event = Line \<and> CALL_STACK w \<noteq> [] then
       (let local_vars = f_locals frame in
        if local_vars \<noteq> [] then
          (let vars_tree = length (heap w);
               h1 = heap w @ [\<lparr>tree_label = Line_In (f_lineno frame) (co_name frame), children = []\<rparr>]
           in case add_vars vars_tree local_vars h1 of
                (Some e, h2) \<Rightarrow> (Inl e, w\<lparr>heap := h2\<rparr>)
              | (None, h2) \<Rightarrow>
                  (Inr (Some (Trace_lines func)),
                   w\<lparr>heap := tree_add h2 (last (CALL_STACK w)) (Node vars_tree)\<rparr>))
        else (Inr (Some (Trace_lines func)), w))
     else (Inr (Some (Trace_lines func)), w))"

section \<open>step_debugger: the step controller\<close>

text \<open>
  \<^verbatim>\<open>str.strip()\<close> and \<^verbatim>\<open>str.lower()\<close> on the characters a \<open>char\<close> can hold: the ASCII
  white space of \<^verbatim>\<open>str.isspace\<close> and the ASCII capitals.
\<close>

definition isspace :: "char \<Rightarrow> bool" where
  "isspace c = (c \<in> set [CHR 0x09, CHR 0x0A, CHR 0x0B, CHR 0x0C, CHR 0x0D,
                          CHR 0x1C, CHR 0x1D, CHR 0x1E, CHR 0x1F, CHR 0x20])"

definition strip :: "string \<Rightarrow> string" where
  "strip s = rev (dropWhile isspace (rev (dropWhile isspace s)))"

definition lower_char :: "char \<Rightarrow> char" where
  "lower_char c =
    (case map_of (zip ''ABCDEFGHIJKLMNOPQRSTUVWXYZ'' ''abcdefghijklmnopqrstuvwxyz'') c of
       Some d \<Rightarrow> d
     | None \<Rightarrow> c)"

definition lower :: "string \<Rightarrow> string" where
  "lower s = map lower_char s"

text \<open>
  The fixed text of line 186, \<^verbatim>\<open>[red]... Cannot display value[/red]\<close>, with the warning
  sign as its three bytes.
\<close>

definition cannot_display :: string where
  "cannot_display = ''[red]'' @ [CHR 0xE2, CHR 0x9A, CHR 0xA0] @ '' Cannot display value[/red]''"

definition startswith :: "string \<Rightarrow> string \<Rightarrow> bool" where
  "startswith s p = (take (length p) s = p)"

text \<open>
  The loop of \<^verbatim>\<open>_display_variables\<close> (lines 181-186): names with a leading double
  underscore are skipped; \<^verbatim>\<open>except Exception\<close> replaces a failing \<^verbatim>\<open>repr\<close> by the fixed
  text and lets the other exceptions through.
\<close>

fun add_rows :: "(string \<times> pyval) list \<Rightarrow> (string \<times> string) list \<Rightarrow> exc + (string \<times> string) list" where
  "add_rows [] rows = Inr rows"
| "add_rows ((var, val) # rest) rows =
    (if \<not> startswith var ''__'' then
       (case py_repr val of
          Inr s \<Rightarrow> add_rows rest (rows @ [(var, s)])
        | Inl e \<Rightarrow>
            if is_Exception e then add_rows rest (rows @ [(var, cannot_display)])
            else Inl e)
     else add_rows rest rows)"

text \<open>\<^verbatim>\<open>_display_variables\<close> (lines 172-187).\<close>

definition display_variables :: "(string \<times> pyval) list \<Rightarrow> world \<Rightarrow> unit result" where
  "display_variables local_vars w =
    (if local_vars = [] then (Inr (), print No_Locals w)
     else (case add_rows local_vars [] of
             Inl e \<Rightarrow> (Inl e, w)
           | Inr rows \<Rightarrow> (Inr (), print (Table rows) w)))"

text \<open>
  The loop \<^verbatim>\<open>while step_mode\<close> once \<open>step_mode\<close> is true (lines 118-127): each round
  prompts and reads one line. The result is the new \<open>step_mode\<close>, or the exception of
  \<^verbatim>\<open>sys.exit(0)\<close>, or \<^verbatim>\<open>EOFError\<close> when the input has ended.
\<close>

fun read_commands :: "string list \<Rightarrow> out list \<Rightarrow> (exc + bool) \<times> string list \<times> out list" where
  "read_commands [] outs = (Inl EOFError, [], outs @ [Prompt])"
| "read_commands (line # rest) outs =
    (let cmd = lower (strip line) in
     if cmd = ''n'' then (Inr True, rest, outs @ [Prompt])
     else if cmd = ''c'' then (Inr False, rest, outs @ [Prompt])
     else if cmd = ''q'' then (Inl (SystemExit 0), rest, outs @ [Prompt, Debugging_Stopped])
     else read_commands rest (outs @ [Prompt]))"

definition command_loop :: "world \<Rightarrow> unit result" where
  "command_loop w =
    (if step_mode w then
       (case read_commands (stdin w) (console w) of
          (Inl e, ins, outs) \<Rightarrow> (Inl e, w\<lparr>stdin := ins, console := outs\<rparr>)
        | (Inr m, ins, outs) \<Rightarrow> (Inr (), w\<lparr>step_mode := m, stdin := ins, console := outs\<rparr>))
     else (Inr (), w))"

text \<open>
  The test \<^verbatim>\<open>breakpoint_line and line_no == breakpoint_line\<close> (lines 115 and 150): false
  for \<^verbatim>\<open>None\<close> and for \<open>0\<close>.
\<close>

definition at_breakpoint :: "int option \<Rightarrow> int \<Rightarrow> bool" where
  "at_breakpoint breakpoint_line line_no \<longleftrightarrow>
     breakpoint_line \<noteq> None \<and> breakpoint_line \<noteq> Some 0 \<and> Some line_no = breakpoint_line"

text \<open>
  \<^verbatim>\<open>trace_calls\<close> of \<^verbatim>\<open>_debug_function_sync\<close> (lines 105-128) and, with the same text, of
  \<^verbatim>\<open>_debug_function_async\<close> (lines 141-163). \<^verbatim>\<open>code_context[0]\<close> raises \<^verbatim>\<open>TypeError\<close> when
  there is no source.
\<close>

definition debug_trace_calls :: "func \<Rightarrow> int option \<Rightarrow> frame \<Rightarrow> event \<Rightarrow> pyval \<Rightarrow> world \<Rightarrow> tracefn option result" where
  "debug_trace_calls func breakpoint_line frame event arg w =
    (if co_name frame \<noteq> fn_name func then (Inr None, w)
     else if event = Line then
       (let line_no = f_lineno frame in
        case code_context frame of
          None \<Rightarrow> (Inl TypeError, w)
        | Some src \<Rightarrow>
            (let w1 = print (Executing_Line line_no (strip src)) w in
             case display_variables (f_locals frame) w1 of
               (Inl e, w2) \<Rightarrow> (Inl e, w2)
             | (Inr u, w2) \<Rightarrow>
                 (let w3 = (if at_breakpoint breakpoint_line line_no
                            then (print (Breakpoint_Hit line_no) w2)\<lparr>step_mode := True\<rparr>
                            else w2)
                  in case command_loop w3 of
                       (Inl e, w4) \<Rightarrow> (Inl e, w4)
                     | (Inr u', w4) \<Rightarrow> (Inr (Some (Debug_trace_calls func breakpoint_line)), w4))))
     else (Inr (Some (Debug_trace_calls func breakpoint_line)), w))"

section \<open>The interpreter's side of sys.settrace\<close>

text \<open>
  A trace function object applied to its arguments.
\<close>

fun apply_tracefn :: "tracefn \<Rightarrow> frame \<Rightarrow> event \<Rightarrow> pyval \<Rightarrow> world \<Rightarrow> tracefn option result" where
  "apply_tracefn (Trace_calls func) = trace_calls func"
| "apply_tracefn (Trace_lines func) = trace_lines func"
| "apply_tracefn (Debug_trace_calls func bp) = debug_trace_calls func bp"

text \<open>
  How the interpreter delivers one event (the documented protocol of
  \<^verbatim>\<open>sys.settrace\<close>): nothing is delivered while no function is registered; a \<^verbatim>\<open>"call"\<close>
  goes to the registered (global) function, every other event to the frame's local
  trace function, if it has one; a result other than \<^verbatim>\<open>None\<close> becomes the frame's local
  trace function; an exception in a trace function unregisters tracing and is raised
  in the traced code.
\<close>

definition deliver :: "frame \<times> event \<times> pyval \<Rightarrow> world \<Rightarrow> unit result" where
  "deliver ev w =
    (case ev of (frame, event, arg) \<Rightarrow>
      (case settrace w of
         None \<Rightarrow> (Inr (), w)
       | Some global \<Rightarrow>
           (case (if event = Call then Some global else f_trace w (f_id frame)) of
              None \<Rightarrow> (Inr (), w)
            | Some callback \<Rightarrow>
                (case apply_tracefn callback frame event arg w of
                   (Inl e, w') \<Rightarrow>
                     (Inl e, w'\<lparr>settrace := None, f_trace := (f_trace w')(f_id frame := None)\<rparr>)
                 | (Inr None, w') \<Rightarrow> (Inr (), w')
                 | (Inr (Some t), w') \<Rightarrow>
                     (Inr (), w'\<lparr>f_trace := (f_trace w')(f_id frame := Some t)\<rparr>)))))"

text \<open>
  One execution of the decorated function, \<^verbatim>\<open>func(*args, **kwargs)\<close>, as the interpreter
  sees it: the frame events it gives rise to, in order, and how it ends. The traced
  code does not intercept an exception raised by a trace function, and does not itself
  enter another decorated function.
\<close>

datatype outcome = Returns pyval | Raises exc

record execution =
  events :: "(frame \<times> event \<times> pyval) list"
  outcome :: outcome

fun run_events :: "(frame \<times> event \<times> pyval) list \<Rightarrow> world \<Rightarrow> exc option \<times> world" where
  "run_events [] w = (None, w)"
| "run_events (ev # evs) w =
    (case deliver ev w of
       (Inl e, w') \<Rightarrow> (Some e, w')
     | (Inr u, w') \<Rightarrow> run_events evs w')"

definition call_func :: "execution \<Rightarrow> world \<Rightarrow> pyval result" where
  "call_func call w =
    (case run_events (events call) w of
       (Some e, w') \<Rightarrow> (Inl e, w')
     | (None, w') \<Rightarrow> (case outcome call of Returns v \<Rightarrow> (Inr v, w') | Raises e \<Rightarrow> (Inl e, w')))"

section \<open>The wrappers\<close>

text \<open>
  \<^verbatim>\<open>{execution_time:.2f}\<close>: the nearest multiple of one hundredth, a tie going to the
  even one.
\<close>

definition format_2f :: "real \<Rightarrow> int" where
  "format_2f x =
    (let y = x * 100; f = \<lfloor>y\<rfloor>; d = y - of_int f in
     if d < 1 / 2 then f
     else if 1 / 2 < d then f + 1
     else if even f then f else f + 1)"

text \<open>
  \<^verbatim>\<open>wrapper\<close> of \<^verbatim>\<open>dbg\<close> (lines 62-80); \<open>t_start\<close> and \<open>t_end\<close> are the two readings of
  \<^verbatim>\<open>time.time()\<close>. In the \<^verbatim>\<open>finally\<close> block \<^verbatim>\<open>result\<close> is read: when the call raised,
  the name is unbound and the read raises \<^verbatim>\<open>UnboundLocalError\<close>, which replaces the
  exception in flight. A \<^verbatim>\<open>Tree\<close> object is true.
\<close>

definition wrapper :: "func \<Rightarrow> execution \<Rightarrow> real \<Rightarrow> real \<Rightarrow> world \<Rightarrow> pyval result" where
  "wrapper func call t_start t_end w =
    (let is_top_level = (CALL_STACK w = []);
         start_time = t_start
     in case call_func call (w\<lparr>settrace := Some (Trace_calls func)\<rparr>) of
          (result, w1) \<Rightarrow>
            (let w2 = w1\<lparr>settrace := None\<rparr>;
                 execution_time = (t_end - start_time) * 1000
             in case DEBUG_TREE w2 of
                  Some debug_tree \<Rightarrow>
                    (if is_top_level then
                       (case result of
                          Inl e \<Rightarrow> (Inl UnboundLocalError, w2)
                        | Inr v \<Rightarrow>
                            (case py_str v of
                               Inl e \<Rightarrow> (Inl e, w2)
                             | Inr s \<Rightarrow>
                                 (let h = tree_add (heap w2) debug_tree (Leaf (Return_Label s));
                                      w3 = print (Tree_Printed debug_tree h) (w2\<lparr>heap := h\<rparr>);
                                      w4 = print (Execution_Time (format_2f execution_time)) w3
                                  in (Inr v, w4\<lparr>DEBUG_TREE := None\<rparr>))))
                     else (result, w2))
                | None \<Rightarrow> (result, w2)))"

text \<open>
  \<^verbatim>\<open>_debug_function_sync\<close> (lines 101-135) and \<^verbatim>\<open>_debug_function_async\<close> (lines 137-170),
  which differs in awaiting the call.
\<close>

definition debug_function_sync :: "func \<Rightarrow> int option \<Rightarrow> execution \<Rightarrow> world \<Rightarrow> pyval result" where
  "debug_function_sync func breakpoint_line call w =
    (case call_func call (w\<lparr>step_mode := False,
                             settrace := Some (Debug_trace_calls func breakpoint_line)\<rparr>) of
       (result, w1) \<Rightarrow> (result, w1\<lparr>settrace := None\<rparr>))"


text \<open>The state of a fresh interpreter that has imported the module.\<close>

definition initial :: "string list \<Rightarrow> world" where
  "initial ins =
    \<lparr>CALL_STACK = [], DEBUG_TREE = None, heap = [], settrace = None,
     f_trace = (\<lambda>i. None), step_mode = False, stdin = ins, console = []\<rparr>"

section \<open>Programs: sequences of decorated calls\<close>

text \<open>
  A program makes decorated calls one after the other, each from the state the last
  one left, whether it returned or raised (the program may catch the exception).
\<close>

datatype session =
    Dbg func execution real real
  | Step_debugger func "int option" execution

fun run_session :: "session \<Rightarrow> world \<Rightarrow> pyval result" where
  "run_session (Dbg func call t_start t_end) w = wrapper func call t_start t_end w"
| "run_session (Step_debugger func breakpoint_line call) w =
     debug_function_sync func breakpoint_line call w"

fun run_sessions :: "session list \<Rightarrow> world \<Rightarrow> world" where
  "run_sessions [] w = w"
| "run_sessions (s # ss) w = run_sessions ss (snd (run_session s w))"

section \<open>Properties of trees and states\<close>

text \<open>The number of return labels among the children of a tree.\<close>

fun is_return :: "child \<Rightarrow> bool" where
  "is_return (Leaf (Return_Label s)) = True"
| "is_return c = False"

definition return_labels :: "tree \<Rightarrow> nat" where
  "return_labels t = length (filter is_return (children t))"

fun is_trace_calls :: "tracefn option \<Rightarrow> bool" where
  "is_trace_calls (Some (Trace_calls func)) = True"
| "is_trace_calls t = False"

fun is_tree_printed :: "out \<Rightarrow> bool" where
  "is_tree_printed (Tree_Printed a h) = True"
| "is_tree_printed x = False"

fun is_execution_time :: "out \<Rightarrow> bool" where
  "is_execution_time (Execution_Time n) = True"
| "is_execution_time x = False"

text \<open>
  What holds between decorated calls: \<^verbatim>\<open>trace_calls\<close> is no frame's local trace
  function; no tree carries two return labels, and the tree that \<open>DEBUG_TREE\<close> names
  carries none yet; every tree that was printed carried one when it was printed.
\<close>

definition no_local_trace_calls :: "world \<Rightarrow> bool" where
  "no_local_trace_calls w \<longleftrightarrow> (\<forall>i. \<not> is_trace_calls (f_trace w i))"

definition heap_ok :: "world \<Rightarrow> bool" where
  "heap_ok w \<longleftrightarrow>
     (\<forall>a < length (heap w). return_labels (heap w ! a) \<le> 1) \<and>
     (\<forall>r. DEBUG_TREE w = Some r \<longrightarrow> r < length (heap w) \<and> return_labels (heap w ! r) = 0)"

definition printed_ok :: "world \<Rightarrow> bool" where
  "printed_ok w \<longleftrightarrow>
     (\<forall>r h. Tree_Printed r h \<in> set (console w) \<longrightarrow> r < length h \<and> return_labels (h ! r) = 1)"

definition tracer_inv :: "world \<Rightarrow> bool" where
  "tracer_inv w \<longleftrightarrow> no_local_trace_calls w \<and> heap_ok w \<and> printed_ok w"

text \<open>What only the wrapper of \<^verbatim>\<open>dbg\<close> prints.\<close>

definition from_wrapper :: "out \<Rightarrow> bool" where
  "from_wrapper x \<longleftrightarrow> is_tree_printed x \<or> is_execution_time x"



text \<open>A line the operator types that is none of the three commands.\<close>

definition unrecognised :: "string \<Rightarrow> bool" where
  "unrecognised line \<longleftrightarrow>
     lower (strip line) \<noteq> ''n'' \<and> lower (strip line) \<noteq> ''c'' \<and> lower (strip line) \<noteq> ''q''"

section \<open>The label of the specification\<close>

text \<open>
  The label as the specification words it, "the function name with the invocation's
  bound-argument signature": at a \<^verbatim>\<open>"call"\<close> event the frame's local bindings are the
  bound arguments.
\<close>

fun join :: "string \<Rightarrow> string list \<Rightarrow> string" where
  "join sep [] = []"
| "join sep [s] = s"
| "join sep (s # t # ss) = s @ sep @ join sep (t # ss)"

definition spec_bound_signature :: "func \<Rightarrow> frame \<Rightarrow> string" where
  "spec_bound_signature func frame =
     fn_name func @ ''('' @
     join '', '' (map (\<lambda>(var, val). var @ ''='' @ (case py_repr val of Inr s \<Rightarrow> s | Inl e \<Rightarrow> ''?''))
                      (f_locals frame)) @ '')''"

section \<open>Example programs\<close>

text \<open>
  The scenario of the specification:
  \<^verbatim>\<open>
  1  def f(x=5, y=10):
  2      z = x + y
  3      return z
  \<close>
\<close>

definition py_int :: "string \<Rightarrow> pyval" where
  "py_int s = PyObject (Inr s) (Inr s)"

definition f_func :: func where
  "f_func = \<lparr>fn_name = ''f'', fn_signature = ''(x=5, y=10)'', fn_code = 1\<rparr>"

definition f_frame :: "int \<Rightarrow> string \<Rightarrow> (string \<times> pyval) list \<Rightarrow> frame" where
  "f_frame n src bindings =
     \<lparr>f_id = 1, co_id = 1, co_name = ''f'', f_lineno = n, f_locals = bindings,
      code_context = Some src\<rparr>"

definition xy :: "(string \<times> pyval) list" where
  "xy = [(''x'', py_int ''5''), (''y'', py_int ''10'')]"

definition xyz :: "(string \<times> pyval) list" where
  "xyz = [(''x'', py_int ''5''), (''y'', py_int ''10''), (''z'', py_int ''15'')]"

text \<open>\<^verbatim>\<open>f()\<close>: the events of the call and its result.\<close>

definition f_call :: execution where
  "f_call =
     \<lparr>events = [(f_frame 1 ''def f(x=5, y=10):'' xy, Call, py_None),
                (f_frame 2 ''    z = x + y'' xy, Line, py_None),
                (f_frame 3 ''    return z'' xyz, Line, py_None),
                (f_frame 3 ''    return z'' xyz, Return, py_int ''15'')],
      outcome = Returns (py_int ''15'')\<rparr>"

text \<open>\<^verbatim>\<open>f(1, 2)\<close>: the frame of its \<^verbatim>\<open>"call"\<close> event.\<close>

definition f_frame_1_2 :: frame where
  "f_frame_1_2 = f_frame 1 ''def f(x=5, y=10):'' [(''x'', py_int ''1''), (''y'', py_int ''2'')]"

text \<open>
  A function of the same name that raises on its first line:
  \<^verbatim>\<open>
  1  def f(x=5, y=10):
  2      raise ValueError("x")
  \<close>
\<close>

definition f_raise :: execution where
  "f_raise =
     \<lparr>events = [(f_frame 1 ''def f(x=5, y=10):'' xy, Call, py_None),
                (f_frame 2 ''    raise ValueError(\"x\")'' xy, Line, py_None),
                (f_frame 2 ''    raise ValueError(\"x\")'' xy, Exception, py_None),
                (f_frame 2 ''    raise ValueError(\"x\")'' xy, Return, py_None)],
      outcome = Raises (UserException ''ValueError'')\<rparr>"

text \<open>
  A function with a local whose \<^verbatim>\<open>__repr__\<close> raises \<^verbatim>\<open>RuntimeError\<close>:
  \<^verbatim>\<open>
  1  def f(x=5, y=10):
  2      b = Bad()
  3      return x
  \<close>
\<close>

definition bad :: pyval where
  "bad = PyObject (Inl (UserException ''RuntimeError'')) (Inl (UserException ''RuntimeError''))"

definition f_bad :: execution where
  "f_bad =
     \<lparr>events = [(f_frame 1 ''def f(x=5, y=10):'' xy, Call, py_None),
                (f_frame 2 ''    b = Bad()'' xy, Line, py_None),
                (f_frame 3 ''    return x'' (xy @ [(''b'', bad)]), Line, py_None),
                (f_frame 3 ''    return x'' (xy @ [(''b'', bad)]), Return, py_int ''5'')],
      outcome = Returns (py_int ''5'')\<rparr>"

text \<open>Another function that is also called \<^verbatim>\<open>f\<close>: a frame of its code object.\<close>

definition other_f_frame :: frame where
  "other_f_frame =
     \<lparr>f_id = 2, co_id = 2, co_name = ''f'', f_lineno = 40, f_locals = [],
      code_context = Some ''def f():''\<rparr>"

text \<open>A frame of a function with another name.\<close>

definition h_frame :: frame where
  "h_frame =
     \<lparr>f_id = 3, co_id = 3, co_name = ''h'', f_lineno = 50, f_locals = [],
      code_context = Some ''def h():''\<rparr>"







section \<open>The tree tracer and the events of a return\<close>

text \<open>
  \<^verbatim>\<open>trace_lines\<close>, the function that \<^verbatim>\<open>trace_calls\<close> hands every traced frame to, does
  nothing at a \<^verbatim>\<open>"return"\<close> event, whatever the state.
\<close>

lemma trace_lines_ignores_return:
  "trace_lines func frame Return arg w = (Inr (Some (Trace_lines func)), w)"
  by (simp add: trace_lines_def)

text \<open>
  C1 (the code departs from the claim). The claim: when the \<^verbatim>\<open>"return"\<close> event of the
  traced function is delivered, the builder attaches the return label to the stack top
  and pops \<open>CALL_STACK\<close>, and when the stack is empty again the root is flushed and all
  the builder's state is discarded. In the code the interpreter delivers that event to
  \<^verbatim>\<open>trace_lines\<close>, so the branch of \<^verbatim>\<open>trace_calls\<close> that pops is never run: after the
  traced call \<^verbatim>\<open>f()\<close> from a fresh state the stack still holds the root, whose one return
  label is the wrapper's, and a second call \<^verbatim>\<open>f()\<close> is no longer top-level and prints
  nothing.
\<close>

theorem return_event_leaves_call_stack:
  "CALL_STACK (snd (wrapper f_func f_call 1 2 (initial []))) = [0]
   \<and> children (heap (snd (wrapper f_func f_call 1 2 (initial []))) ! 0)
       = [Node 1, Node 2, Leaf (Return_Label ''15'')]
   \<and> console (snd (wrapper f_func f_call 3 4 (snd (wrapper f_func f_call 1 2 (initial [])))))
       = console (snd (wrapper f_func f_call 1 2 (initial [])))"
  by code_simp

section \<open>A traced function that raises\<close>

text \<open>
  C2 (the code departs from the claim). The claim: when the wrapped function raises, the
  trace hook is still unregistered, the original error reaches the caller unchanged and
  the tree tracer emits no tree. In the code the \<^verbatim>\<open>finally\<close> block of \<^verbatim>\<open>dbg\<close>'s wrapper
  reads \<^verbatim>\<open>result\<close>, which is unbound: for a top-level call of a function that raises
  \<^verbatim>\<open>ValueError\<close> the caller gets \<^verbatim>\<open>UnboundLocalError\<close>. The hook is unregistered and nothing
  is printed.
\<close>

theorem wrapper_replaces_error:
  "outcome f_raise = Raises (UserException ''ValueError'')
   \<and> fst (wrapper f_func f_raise 1 2 (initial [])) = Inl UnboundLocalError
   \<and> settrace (snd (wrapper f_func f_raise 1 2 (initial []))) = None
   \<and> console (snd (wrapper f_func f_raise 1 2 (initial []))) = []"
  by code_simp

section \<open>Values that cannot be displayed\<close>

text \<open>
  \<^verbatim>\<open>_display_variables\<close> itself keeps the promise: whenever every failing \<^verbatim>\<open>repr\<close> among
  the bindings raises an \<^verbatim>\<open>Exception\<close>, it returns normally.
\<close>

lemma add_rows_never_raises:
  "\<forall>(var, val) \<in> set ls. \<forall>e. py_repr val = Inl e \<longrightarrow> is_Exception e \<Longrightarrow>
   \<exists>rows'. add_rows ls rows = Inr rows'"
proof (induction ls arbitrary: rows)
  case Nil
  then show ?case by simp
next
  case (Cons p ls)
  obtain var val where p: "p = (var, val)" by (cases p)
  have rest: "\<And>rows. \<exists>rows'. add_rows ls rows = Inr rows'"
    using Cons by simp
  show ?case
    using Cons.prems rest unfolding p by (cases "py_repr val") auto
qed

lemma display_variables_never_raises:
  "\<forall>(var, val) \<in> set ls. \<forall>e. py_repr val = Inl e \<longrightarrow> is_Exception e \<Longrightarrow>
   fst (display_variables ls w) = Inr ()"
  using add_rows_never_raises [of ls "[]"]
  by (auto simp: display_variables_def)

text \<open>
  C8 (the code departs from the claim). The claim: formatting a snapshot never lets an
  exception escape, in the step debugger and in the tree tracer alike; a value that
  fails to render is shown as a fixed text. \<^verbatim>\<open>_display_variables\<close> does so, but
  \<^verbatim>\<open>trace_lines\<close> calls \<^verbatim>\<open>repr\<close> unguarded: with a local whose \<^verbatim>\<open>__repr__\<close> raises
  \<^verbatim>\<open>RuntimeError\<close>, the tree tracer's \<^verbatim>\<open>"line"\<close> event raises it into the traced call, which
  the step debugger completes.
\<close>

theorem trace_lines_repr_escapes:
  "fst (call_func f_bad ((initial [])\<lparr>settrace := Some (Trace_calls f_func)\<rparr>))
     = Inl (UserException ''RuntimeError'')
   \<and> fst (debug_function_sync f_func None f_bad (initial [])) = Inr (py_int ''5'')
   \<and> last (console (snd (debug_function_sync f_func None f_bad (initial []))))
       = Table [(''x'', ''5''), (''y'', ''10''), (''b'', cannot_display)]"
  by code_simp

section \<open>The step controller at a pause\<close>

lemma read_commands_unrecognised:
  "unrecognised line \<Longrightarrow> read_commands (line # rest) outs = read_commands rest (outs @ [Prompt])"
  by (simp add: unrecognised_def Let_def)




section \<open>Abort\<close>






text \<open>No trace function changes what is registered with \<^verbatim>\<open>sys.settrace\<close>.\<close>

lemma display_variables_frame:
  "display_variables ls w = (r, w') \<Longrightarrow>
   settrace w' = settrace w \<and> f_trace w' = f_trace w \<and> step_mode w' = step_mode w
   \<and> stdin w' = stdin w"
  by (auto simp: display_variables_def print_def split: if_splits sum.splits)

lemma command_loop_settrace:
  "command_loop w = (r, w') \<Longrightarrow> settrace w' = settrace w \<and> f_trace w' = f_trace w"
  by (auto simp: command_loop_def split: if_splits prod.splits sum.splits)









section \<open>Resume\<close>




text \<open>The resume command clears \<open>step_mode\<close> and ends the loop.\<close>

lemma command_loop_resume:
  "step_mode w \<Longrightarrow> stdin w = line # rest \<Longrightarrow> lower (strip line) = ''c'' \<Longrightarrow>
   command_loop w = (Inr (), w\<lparr>step_mode := False, stdin := rest, console := console w @ [Prompt]\<rparr>)"
  by (simp add: command_loop_def Let_def)





section \<open>Which events are forwarded\<close>

text \<open>
  C3, as stated, fails: events would be forwarded if and only if the frame has the code
  identity of the traced function, another function of the same name being discarded.
  A frame of another code object that is also named \<^verbatim>\<open>f\<close> is handled by the tree tracer
  (a node is built and pushed) and by the step controller (the line is displayed).
\<close>

theorem same_name_forwarded_counterexample:
  "co_id other_f_frame \<noteq> fn_code f_func
   \<and> fst (trace_calls f_func other_f_frame Call py_None (initial [])) = Inr (Some (Trace_lines f_func))
   \<and> CALL_STACK (snd (trace_calls f_func other_f_frame Call py_None (initial []))) = [0]
   \<and> console (snd (debug_trace_calls f_func None other_f_frame Line py_None (initial [])))
       = [Executing_Line 40 ''def f():'', No_Locals]"
  by code_simp

text \<open>
  C3, amended. An event is forwarded if and only if the name of the frame's code equals
  the name of the traced function. With another name both trace functions return
  \<^verbatim>\<open>None\<close> and change nothing, so that the interpreter, delivering the frame's \<^verbatim>\<open>"call"\<close>
  event, leaves the frame untraced; with the same name they never return \<^verbatim>\<open>None\<close>.
\<close>

theorem events_filtered_by_name:
  "(co_name frame \<noteq> fn_name func \<longrightarrow>
       trace_calls func frame event arg w = (Inr None, w)
     \<and> debug_trace_calls func bp frame event arg w = (Inr None, w)
     \<and> (settrace w = Some (Trace_calls func) \<or> settrace w = Some (Debug_trace_calls func bp)
          \<longrightarrow> deliver (frame, Call, arg) w = (Inr (), w)))
   \<and> (co_name frame = fn_name func \<longrightarrow>
       fst (trace_calls func frame event arg w) \<noteq> Inr None
     \<and> fst (debug_trace_calls func bp frame event arg w) \<noteq> Inr None)"
proof (intro conjI impI)
  assume n: "co_name frame \<noteq> fn_name func"
  show t: "trace_calls func frame event arg w = (Inr None, w)"
    using n by (simp add: trace_calls_def)
  show d: "debug_trace_calls func bp frame event arg w = (Inr None, w)"
    using n by (simp add: debug_trace_calls_def)
  assume "settrace w = Some (Trace_calls func) \<or> settrace w = Some (Debug_trace_calls func bp)"
  then show "deliver (frame, Call, arg) w = (Inr (), w)"
    using n by (auto simp: deliver_def trace_calls_def debug_trace_calls_def)
next
  assume n: "co_name frame = fn_name func"
  show "fst (trace_calls func frame event arg w) \<noteq> Inr None"
    using n by (auto simp: trace_calls_def Let_def split: sum.splits)
  show "fst (debug_trace_calls func bp frame event arg w) \<noteq> Inr None"
    using n by (auto simp: debug_trace_calls_def Let_def split: option.splits prod.splits sum.splits)
qed

theorem events_filtered_by_name_witness:
  "co_name h_frame \<noteq> fn_name f_func \<and> co_name other_f_frame = fn_name f_func
   \<and> trace_calls f_func h_frame Call py_None (initial []) = (Inr None, initial [])
   \<and> debug_trace_calls f_func (Some 2) h_frame Line py_None (initial []) = (Inr None, initial [])
   \<and> fst (trace_calls f_func other_f_frame Call py_None (initial [])) \<noteq> Inr None
   \<and> fst (debug_trace_calls f_func (Some 2) other_f_frame Line py_None (initial [])) \<noteq> Inr None"
proof -
  have n: "co_name h_frame \<noteq> fn_name f_func" by code_simp
  have m: "co_name other_f_frame = fn_name f_func" by code_simp
  show ?thesis
    using n m events_filtered_by_name [of h_frame f_func Call py_None "initial []" "Some 2"]
      events_filtered_by_name [of h_frame f_func Line py_None "initial []" "Some 2"]
      events_filtered_by_name [of other_f_frame f_func Call py_None "initial []" "Some 2"]
      events_filtered_by_name [of other_f_frame f_func Line py_None "initial []" "Some 2"]
    by simp
qed

section \<open>The node of a call\<close>

lemma tree_add_length [simp]: "length (tree_add h a c) = length h"
  by (simp add: tree_add_def)

lemma tree_add_other: "b \<noteq> a \<Longrightarrow> tree_add h a c ! b = h ! b"
  by (simp add: tree_add_def)

lemma tree_add_children:
  "a < length h \<Longrightarrow> children (tree_add h a c ! a) = children (h ! a) @ [c]"
  by (simp add: tree_add_def)

lemma tree_add_label: "tree_label (tree_add h a c ! b) = tree_label (h ! b)"
  by (cases "a < length h"; cases "b = a") (simp_all add: tree_add_def list_update_beyond)

text \<open>
  C4, as stated, fails: the label would carry the bound arguments of the invocation.
  For the call \<^verbatim>\<open>f(1, 2)\<close> the label is \<^verbatim>\<open>f(x=5, y=10)\<close>, the declared signature, where the
  bound arguments are \<^verbatim>\<open>x=1, y=2\<close>.
\<close>

theorem label_ignores_bound_arguments_counterexample:
  "tree_label (heap (snd (trace_calls f_func f_frame_1_2 Call py_None (initial []))) ! 0)
      = Function_Called ''f(x=5, y=10)''
   \<and> spec_bound_signature f_func f_frame_1_2 = ''f(x=1, y=2)''"
  by code_simp

text \<open>
  C4, amended. On every \<^verbatim>\<open>"call"\<close> event of the traced function the builder makes a new
  node whose label is the function's name followed by its declared signature (the same
  for every invocation), pushes it on \<open>CALL_STACK\<close>, and either installs it as the
  root in \<open>DEBUG_TREE\<close>, when the stack was empty, or appends it as the last child of
  the stack top, the other trees being unchanged.
\<close>

theorem call_event_builds_node:
  assumes "co_name frame = fn_name func"
  shows "fst (trace_calls func frame Call arg w) = Inr (Some (Trace_lines func))
   \<and> length (heap (snd (trace_calls func frame Call arg w))) = length (heap w) + 1
   \<and> tree_label (heap (snd (trace_calls func frame Call arg w)) ! length (heap w))
        = Function_Called (fn_name func @ fn_signature func)
   \<and> CALL_STACK (snd (trace_calls func frame Call arg w)) = CALL_STACK w @ [length (heap w)]
   \<and> (CALL_STACK w = [] \<longrightarrow>
         DEBUG_TREE (snd (trace_calls func frame Call arg w)) = Some (length (heap w))
       \<and> heap (snd (trace_calls func frame Call arg w))
           = heap w @ [\<lparr>tree_label = Function_Called (fn_name func @ fn_signature func), children = []\<rparr>])
   \<and> (CALL_STACK w \<noteq> [] \<longrightarrow>
         DEBUG_TREE (snd (trace_calls func frame Call arg w)) = DEBUG_TREE w
       \<and> (last (CALL_STACK w) < length (heap w) \<longrightarrow>
            children (heap (snd (trace_calls func frame Call arg w)) ! last (CALL_STACK w))
              = children (heap w ! last (CALL_STACK w)) @ [Node (length (heap w))])
       \<and> (\<forall>a < length (heap w). a \<noteq> last (CALL_STACK w) \<longrightarrow>
            heap (snd (trace_calls func frame Call arg w)) ! a = heap w ! a))"
proof (cases "CALL_STACK w = []")
  case True
  then show ?thesis using assms by (simp add: trace_calls_def Let_def)
next
  case False
  then show ?thesis using assms
    by (simp add: trace_calls_def Let_def tree_add_label tree_add_children tree_add_other nth_append)
qed

theorem call_event_builds_node_witness:
  "co_name f_frame_1_2 = fn_name f_func
   \<and> tree_label (heap (snd (trace_calls f_func f_frame_1_2 Call py_None (initial []))) ! 0)
        = Function_Called ''f(x=5, y=10)''
   \<and> CALL_STACK (snd (trace_calls f_func f_frame_1_2 Call py_None (initial []))) = [0]
   \<and> DEBUG_TREE (snd (trace_calls f_func f_frame_1_2 Call py_None (initial []))) = Some 0"
proof -
  have n: "co_name f_frame_1_2 = fn_name f_func" by code_simp
  have e: "CALL_STACK (initial []) = []" "heap (initial []) = []" by (simp_all add: initial_def)
  have s: "fn_name f_func @ fn_signature f_func = ''f(x=5, y=10)''" by code_simp
  show ?thesis
    using n call_event_builds_node [OF n, of py_None "initial []"] by (simp add: e s)
qed

section \<open>Return labels\<close>

lemma return_labels_tree_add:
  "return_labels (tree_add h a c ! b) =
     return_labels (h ! b) + (if b = a \<and> a < length h \<and> is_return c then 1 else 0)"
  by (cases "a < length h"; cases "b = a")
     (simp_all add: tree_add_def return_labels_def list_update_beyond)

lemma add_vars_returns:
  "add_vars vt ls h = (r, h') \<Longrightarrow>
   length h' = length h \<and> (\<forall>b. return_labels (h' ! b) = return_labels (h ! b))"
proof (induction ls arbitrary: h)
  case Nil then show ?case by simp
next
  case (Cons p ls)
  obtain var val where p: "p = (var, val)" by (cases p)
  show ?case
  proof (cases "py_repr val")
    case (Inl e)
    then show ?thesis using Cons.prems p by simp
  next
    case (Inr s)
    then have "add_vars vt ls (tree_add h vt (Leaf (Var_Entry var s))) = (r, h')"
      using Cons.prems p by simp
    from Cons.IH [OF this] show ?thesis by (simp add: return_labels_tree_add)
  qed
qed

lemma heap_okI:
  assumes "\<And>a. a < length (heap w) \<Longrightarrow> return_labels (heap w ! a) \<le> 1"
    and "\<And>r. DEBUG_TREE w = Some r \<Longrightarrow> r < length (heap w) \<and> return_labels (heap w ! r) = 0"
  shows "heap_ok w"
  using assms by (simp add: heap_ok_def)

lemma trace_calls_Call_heap_ok:
  assumes "heap_ok w" and "trace_calls func frame Call arg w = (r, w')"
  shows "heap_ok w'"
proof (cases "co_name frame = fn_name func")
  case False
  then show ?thesis using assms by (simp add: trace_calls_def)
next
  case True
  define new where "new = \<lparr>tree_label = Function_Called (fn_name func @ fn_signature func), children = []\<rparr>"
  have new0: "return_labels new = 0" by (simp add: new_def return_labels_def)
  have old: "\<And>a. a < length (heap w) \<Longrightarrow> return_labels (heap w ! a) \<le> 1"
    and root: "\<And>r. DEBUG_TREE w = Some r \<Longrightarrow> r < length (heap w) \<and> return_labels (heap w ! r) = 0"
    using assms(1) by (auto simp: heap_ok_def)
  have ext: "\<And>a. a < length (heap w) + 1 \<Longrightarrow> return_labels ((heap w @ [new]) ! a) \<le> 1"
    using old new0 by (simp add: nth_append)
  show ?thesis
  proof (cases "CALL_STACK w = []")
    case e: True
    have "heap w' = heap w @ [new]" "DEBUG_TREE w' = Some (length (heap w))"
      using assms(2) True e by (auto simp: trace_calls_def Let_def new_def)
    then show ?thesis using ext new0 by (auto intro!: heap_okI)
  next
    case ne: False
    have h: "heap w' = tree_add (heap w @ [new]) (last (CALL_STACK w)) (Node (length (heap w)))"
      and d: "DEBUG_TREE w' = DEBUG_TREE w"
      using assms(2) True ne by (auto simp: trace_calls_def Let_def new_def)
    show ?thesis
    proof (rule heap_okI)
      fix a assume "a < length (heap w')"
      then show "return_labels (heap w' ! a) \<le> 1"
        using ext [of a] by (simp add: h return_labels_tree_add)
    next
      fix r assume "DEBUG_TREE w' = Some r"
      then show "r < length (heap w') \<and> return_labels (heap w' ! r) = 0"
        using root [of r] by (simp add: h d return_labels_tree_add nth_append)
    qed
  qed
qed

lemma trace_lines_heap_ok:
  assumes "heap_ok w" and "trace_lines func frame event arg w = (r, w')"
  shows "heap_ok w'"
proof (cases "event = Line \<and> CALL_STACK w \<noteq> [] \<and> f_locals frame \<noteq> []")
  case False
  then show ?thesis using assms by (auto simp: trace_lines_def Let_def split: if_splits)
next
  case True
  define new where "new = \<lparr>tree_label = Line_In (f_lineno frame) (co_name frame), children = []\<rparr>"
  have new0: "return_labels new = 0" by (simp add: new_def return_labels_def)
  obtain e h2 where av: "add_vars (length (heap w)) (f_locals frame) (heap w @ [new]) = (e, h2)"
    by (cases "add_vars (length (heap w)) (f_locals frame) (heap w @ [new])")
  have len: "length h2 = length (heap w) + 1"
    and same: "\<And>b. return_labels (h2 ! b) = return_labels ((heap w @ [new]) ! b)"
    using add_vars_returns [OF av] by simp_all
  have old: "\<And>a. a < length (heap w) \<Longrightarrow> return_labels (heap w ! a) \<le> 1"
    and root: "\<And>r. DEBUG_TREE w = Some r \<Longrightarrow> r < length (heap w) \<and> return_labels (heap w ! r) = 0"
    using assms(1) by (auto simp: heap_ok_def)
  have d: "DEBUG_TREE w' = DEBUG_TREE w"
    using assms(2) True av by (auto simp: trace_lines_def Let_def new_def split: option.splits)
  have h: "heap w' = h2 \<or> heap w' = tree_add h2 (last (CALL_STACK w)) (Node (length (heap w)))"
    using assms(2) True av by (auto simp: trace_lines_def Let_def new_def split: option.splits)
  have len': "length (heap w') = length (heap w) + 1"
    using h len by auto
  have cnt: "return_labels (heap w' ! b) = return_labels ((heap w @ [new]) ! b)" for b
    using h same [of b] by (auto simp: return_labels_tree_add)
  show ?thesis
  proof (rule heap_okI)
    fix a assume "a < length (heap w')"
    then show "return_labels (heap w' ! a) \<le> 1"
      using old [of a] new0 by (simp add: len' cnt nth_append)
  next
    fix r assume "DEBUG_TREE w' = Some r"
    then show "r < length (heap w') \<and> return_labels (heap w' ! r) = 0"
      using root [of r] by (simp add: d len' cnt nth_append)
  qed
qed


text \<open>The step controller does not touch the trees.\<close>

lemma command_loop_heap:
  "command_loop w = (r, w') \<Longrightarrow> heap w' = heap w \<and> DEBUG_TREE w' = DEBUG_TREE w"
  by (auto simp: command_loop_def split: if_splits prod.splits sum.splits)

lemma display_variables_heap:
  "display_variables ls w = (r, w') \<Longrightarrow> heap w' = heap w \<and> DEBUG_TREE w' = DEBUG_TREE w"
  by (auto simp: display_variables_def print_def split: if_splits sum.splits)

lemma debug_trace_calls_heap:
  "debug_trace_calls func bp frame event arg w = (r, w') \<Longrightarrow>
   heap w' = heap w \<and> DEBUG_TREE w' = DEBUG_TREE w"
  by (auto simp: debug_trace_calls_def Let_def print_def
      dest!: display_variables_heap command_loop_heap
      split: if_splits option.splits prod.splits sum.splits)

lemma debug_trace_calls_heap_ok:
  "heap_ok w \<Longrightarrow> debug_trace_calls func bp frame event arg w = (r, w') \<Longrightarrow> heap_ok w'"
  by (drule debug_trace_calls_heap) (simp add: heap_ok_def)

text \<open>What the trace functions print is neither a tree nor an execution time.\<close>

lemma read_commands_console:
  "read_commands ins outs = (r, ins', outs') \<Longrightarrow> x \<in> set outs' \<Longrightarrow>
   x \<in> set outs \<or> x = Prompt \<or> x = Debugging_Stopped"
proof (induction ins arbitrary: outs)
  case Nil then show ?case by auto
next
  case (Cons l ins)
  show ?case
  proof (cases "unrecognised l")
    case True
    then have "read_commands ins (outs @ [Prompt]) = (r, ins', outs')"
      using Cons.prems by (simp add: read_commands_unrecognised del: read_commands.simps)
    from Cons.IH [OF this Cons.prems(2)] show ?thesis by auto
  next
    case False
    then show ?thesis using Cons.prems by (auto simp: unrecognised_def Let_def split: if_splits)
  qed
qed


lemma command_loop_console:
  "command_loop w = (r, w') \<Longrightarrow> x \<in> set (console w') \<Longrightarrow> from_wrapper x \<Longrightarrow> x \<in> set (console w)"
  by (auto simp: command_loop_def from_wrapper_def split: if_splits prod.splits sum.splits
      dest: read_commands_console)

lemma display_variables_console:
  "display_variables ls w = (r, w') \<Longrightarrow> x \<in> set (console w') \<Longrightarrow> from_wrapper x \<Longrightarrow> x \<in> set (console w)"
  by (auto simp: display_variables_def print_def from_wrapper_def split: if_splits sum.splits)

lemma debug_trace_calls_console:
  assumes "debug_trace_calls func bp frame event arg w = (r, w')"
    and "x \<in> set (console w')" and "from_wrapper x"
  shows "x \<in> set (console w)"
proof (cases "co_name frame = fn_name func \<and> event = Line \<and> code_context frame \<noteq> None")
  case False
  then show ?thesis using assms by (auto simp: debug_trace_calls_def split: if_splits option.splits)
next
  case True
  then obtain src where s: "code_context frame = Some src" by auto
  define w1 where "w1 = print (Executing_Line (f_lineno frame) (strip src)) w"
  obtain r2 w2 where d: "display_variables (f_locals frame) w1 = (r2, w2)"
    by (cases "display_variables (f_locals frame) w1")
  have c2: "y \<in> set (console w2) \<Longrightarrow> from_wrapper y \<Longrightarrow> y \<in> set (console w)" for y
    using display_variables_console [OF d, of y] by (auto simp: w1_def print_def from_wrapper_def)
  show ?thesis
  proof (cases r2)
    case (Inl e)
    then have "w' = w2" using assms(1) True s d
      by (simp add: debug_trace_calls_def Let_def w1_def [symmetric])
    then show ?thesis using c2 assms by simp
  next
    case (Inr u)
    define w3 where "w3 = (if at_breakpoint bp (f_lineno frame)
       then (print (Breakpoint_Hit (f_lineno frame)) w2)\<lparr>step_mode := True\<rparr> else w2)"
    have c3: "y \<in> set (console w3) \<Longrightarrow> from_wrapper y \<Longrightarrow> y \<in> set (console w)" for y
      using c2 [of y] by (cases "at_breakpoint bp (f_lineno frame)") (auto simp: w3_def print_def from_wrapper_def)
    obtain r4 w4 where l: "command_loop w3 = (r4, w4)" by (cases "command_loop w3")
    have "w' = w4" using assms(1) True s d Inr l
      by (cases r4) (simp_all add: debug_trace_calls_def Let_def w1_def [symmetric] w3_def [symmetric])
    then show ?thesis using command_loop_console [OF l, of x] c3 assms by auto
  qed
qed


lemma trace_calls_frame:
  "trace_calls func frame event arg w = (r, w') \<Longrightarrow>
   f_trace w' = f_trace w \<and> console w' = console w"
  by (auto simp: trace_calls_def Let_def split: if_splits sum.splits)

lemma trace_lines_frame:
  "trace_lines func frame event arg w = (r, w') \<Longrightarrow>
   f_trace w' = f_trace w \<and> console w' = console w"
  by (auto simp: trace_lines_def Let_def split: if_splits prod.splits option.splits)

lemma debug_trace_calls_f_trace:
  "debug_trace_calls func bp frame event arg w = (r, w') \<Longrightarrow> f_trace w' = f_trace w"
  by (auto simp: debug_trace_calls_def Let_def print_def
      dest!: display_variables_frame command_loop_settrace
      split: if_splits option.splits prod.splits sum.splits)

lemma apply_tracefn_f_trace:
  "apply_tracefn t frame event arg w = (r, w') \<Longrightarrow> f_trace w' = f_trace w"
  by (cases t) (auto dest: trace_calls_frame trace_lines_frame debug_trace_calls_f_trace)

lemma apply_tracefn_console:
  "apply_tracefn t frame event arg w = (r, w') \<Longrightarrow> x \<in> set (console w') \<Longrightarrow>
   from_wrapper x \<Longrightarrow> x \<in> set (console w)"
  by (cases t) (auto dest: trace_calls_frame trace_lines_frame debug_trace_calls_console)

lemma trace_calls_result:
  "trace_calls func frame event arg w = (Inr (Some t), w') \<Longrightarrow> t = Trace_lines func"
  by (auto simp: trace_calls_def Let_def split: if_splits sum.splits)

lemma trace_lines_result:
  "trace_lines func frame event arg w = (Inr (Some t), w') \<Longrightarrow> t = Trace_lines func"
  by (auto simp: trace_lines_def Let_def split: if_splits prod.splits option.splits)

lemma debug_trace_calls_result:
  "debug_trace_calls func bp frame event arg w = (Inr (Some t), w') \<Longrightarrow>
   t = Debug_trace_calls func bp"
  by (auto simp: debug_trace_calls_def Let_def split: if_splits option.splits prod.splits sum.splits)

lemma apply_tracefn_result:
  "apply_tracefn t frame event arg w = (Inr (Some t'), w') \<Longrightarrow> \<not> is_trace_calls (Some t')"
  by (cases t) (auto dest: trace_calls_result trace_lines_result debug_trace_calls_result)

lemma apply_tracefn_heap_ok:
  assumes "heap_ok w" and "apply_tracefn t frame event arg w = (r, w')"
    and "event = Call \<or> \<not> is_trace_calls (Some t)"
  shows "heap_ok w'"
  using assms
  by (cases t) (auto dest: trace_calls_Call_heap_ok trace_lines_heap_ok debug_trace_calls_heap_ok)

lemma printed_ok_mono:
  "printed_ok w \<Longrightarrow> (\<And>x. x \<in> set (console w') \<Longrightarrow> from_wrapper x \<Longrightarrow> x \<in> set (console w))
   \<Longrightarrow> printed_ok w'"
  unfolding printed_ok_def from_wrapper_def by (metis is_tree_printed.simps(1))

lemma deliver_console:
  "deliver ev w = (r, w') \<Longrightarrow> x \<in> set (console w') \<Longrightarrow> from_wrapper x \<Longrightarrow> x \<in> set (console w)"
  by (auto simp: deliver_def dest: apply_tracefn_console
      split: prod.splits option.splits sum.splits if_splits)

lemma deliver_inv:
  assumes "tracer_inv w" and "deliver ev w = (r, w')"
  shows "tracer_inv w'"
proof -
  obtain frame event arg where ev: "ev = (frame, event, arg)" by (cases ev)
  have i: "no_local_trace_calls w" "heap_ok w" "printed_ok w"
    using assms(1) by (simp_all add: tracer_inv_def)
  have p: "printed_ok w'"
    using printed_ok_mono [OF i(3)] deliver_console [OF assms(2)] by blast
  show ?thesis
  proof (cases "settrace w")
    case None
    then show ?thesis using assms ev by (simp add: deliver_def)
  next
    case (Some global)
    show ?thesis
    proof (cases "if event = Call then Some global else f_trace w (f_id frame)")
      case None
      then show ?thesis using assms ev Some by (simp add: deliver_def)
    next
      case cb: (Some callback)
      have ok: "event = Call \<or> \<not> is_trace_calls (Some callback)"
        using cb i(1) [unfolded no_local_trace_calls_def, rule_format, of "f_id frame"]
        by (auto split: if_splits)
      obtain r1 w1 where a: "apply_tracefn callback frame event arg w = (r1, w1)"
        by (cases "apply_tracefn callback frame event arg w")
      have h1: "heap_ok w1" using apply_tracefn_heap_ok [OF i(2) a ok] .
      have f1: "f_trace w1 = f_trace w" using apply_tracefn_f_trace [OF a] .
      have "heap_ok w' \<and> no_local_trace_calls w'"
      proof (cases r1)
        case (Inl e)
        then have "w' = w1\<lparr>settrace := None, f_trace := (f_trace w1)(f_id frame := None)\<rparr>"
          using assms(2) ev Some cb a by (simp add: deliver_def)
        then show ?thesis using h1 f1 i(1) by (simp add: heap_ok_def no_local_trace_calls_def)
      next
        case (Inr res)
        show ?thesis
        proof (cases res)
          case None
          then have "w' = w1" using assms(2) ev Some cb a Inr by (simp add: deliver_def)
          then show ?thesis using h1 f1 i(1) by (simp add: no_local_trace_calls_def)
        next
          case (Some t)
          then have w': "w' = w1\<lparr>f_trace := (f_trace w1)(f_id frame := Some t)\<rparr>"
            using assms(2) ev \<open>settrace w = Some global\<close> cb a Inr by (simp add: deliver_def)
          have "\<not> is_trace_calls (Some t)"
            using apply_tracefn_result a Inr Some by blast
          then show ?thesis using w' h1 f1 i(1) by (simp add: heap_ok_def no_local_trace_calls_def)
        qed
      qed
      then show ?thesis using p by (simp add: tracer_inv_def)
    qed
  qed
qed

lemma run_events_inv:
  "tracer_inv w \<Longrightarrow> run_events evs w = (r, w') \<Longrightarrow> tracer_inv w'"
proof (induction evs arbitrary: w)
  case Nil then show ?case by simp
next
  case (Cons ev evs)
  obtain r1 w1 where d: "deliver ev w = (r1, w1)" by (cases "deliver ev w")
  have i1: "tracer_inv w1" using deliver_inv [OF Cons.prems(1) d] .
  show ?case
  proof (cases r1)
    case (Inl e)
    then show ?thesis using Cons.prems(2) d i1 by simp
  next
    case (Inr u)
    then show ?thesis using Cons.prems(2) d Cons.IH [OF i1] by simp
  qed
qed


lemma call_func_inv:
  "tracer_inv w \<Longrightarrow> call_func call w = (r, w') \<Longrightarrow> tracer_inv w'"
  by (auto simp: call_func_def split: prod.splits option.splits outcome.splits dest: run_events_inv)


lemma tracer_inv_settrace [simp]: "tracer_inv (w\<lparr>settrace := t\<rparr>) = tracer_inv w"
  by (simp add: tracer_inv_def no_local_trace_calls_def heap_ok_def printed_ok_def)

lemma tracer_inv_step_mode [simp]: "tracer_inv (w\<lparr>step_mode := m\<rparr>) = tracer_inv w"
  by (simp add: tracer_inv_def no_local_trace_calls_def heap_ok_def printed_ok_def)

lemma debug_function_sync_inv:
  assumes "tracer_inv w"
  shows "tracer_inv (snd (debug_function_sync func bp call w))"
proof -
  obtain r w1 where c: "call_func call (w\<lparr>step_mode := False,
      settrace := Some (Debug_trace_calls func bp)\<rparr>) = (r, w1)"
    by (cases "call_func call (w\<lparr>step_mode := False,
      settrace := Some (Debug_trace_calls func bp)\<rparr>)")
  have "tracer_inv w1"
    using call_func_inv [OF _ c] assms by simp
  then show ?thesis by (simp add: debug_function_sync_def c)
qed

lemma wrapper_inv:
  assumes "tracer_inv w"
  shows "tracer_inv (snd (wrapper func call t_start t_end w))"
proof -
  obtain result w1 where c: "call_func call (w\<lparr>settrace := Some (Trace_calls func)\<rparr>) = (result, w1)"
    by (cases "call_func call (w\<lparr>settrace := Some (Trace_calls func)\<rparr>)")
  define w2 where "w2 = w1\<lparr>settrace := None\<rparr>"
  have i2: "tracer_inv w2"
    using call_func_inv [OF _ c] assms by (simp add: w2_def)
  show ?thesis
  proof (cases "\<exists>r v s. DEBUG_TREE w2 = Some r \<and> CALL_STACK w = [] \<and> result = Inr v \<and> py_str v = Inr s")
    case False
    then have "snd (wrapper func call t_start t_end w) = w2"
      by (auto simp: wrapper_def c Let_def w2_def split: option.splits sum.splits)
    then show ?thesis using i2 by simp
  next
    case True
    then obtain r v s where t: "DEBUG_TREE w2 = Some r" "CALL_STACK w = []" "result = Inr v"
      "py_str v = Inr s" by blast
    define h where "h = tree_add (heap w2) r (Leaf (Return_Label s))"
    have w': "snd (wrapper func call t_start t_end w) =
        w2\<lparr>heap := h,
           console := console w2 @ [Tree_Printed r h,
              Execution_Time (format_2f ((t_end - t_start) * 1000))],
           DEBUG_TREE := None\<rparr>"
      using t by (simp add: wrapper_def c Let_def w2_def h_def print_def)
    have r: "r < length (heap w2)" "return_labels (heap w2 ! r) = 0"
      and old: "\<And>a. a < length (heap w2) \<Longrightarrow> return_labels (heap w2 ! a) \<le> 1"
      and pr: "printed_ok w2" and nl: "no_local_trace_calls w2"
      using i2 t(1) by (auto simp: tracer_inv_def heap_ok_def)
    have hr: "return_labels (h ! r) = 1"
      using r by (simp add: h_def return_labels_tree_add)
    have ha: "a < length h \<Longrightarrow> return_labels (h ! a) \<le> 1" for a
      using old [of a] r by (simp add: h_def return_labels_tree_add)
    have "heap_ok (snd (wrapper func call t_start t_end w))"
      using ha by (simp add: w' heap_ok_def)
    moreover have "printed_ok (snd (wrapper func call t_start t_end w))"
      using pr hr r(1) by (auto simp: w' printed_ok_def h_def)
    moreover have "no_local_trace_calls (snd (wrapper func call t_start t_end w))"
      using nl by (simp add: w' no_local_trace_calls_def)
    ultimately show ?thesis by (simp add: tracer_inv_def)
  qed
qed

lemma run_session_inv: "tracer_inv w \<Longrightarrow> tracer_inv (snd (run_session s w))"
  by (cases s) (simp_all add: wrapper_inv debug_function_sync_inv)

lemma run_sessions_inv: "tracer_inv w \<Longrightarrow> tracer_inv (run_sessions ss w)"
  by (induction ss arbitrary: w) (simp_all add: run_session_inv)

lemma initial_inv: "tracer_inv (initial ins)"
  by (simp add: tracer_inv_def initial_def no_local_trace_calls_def heap_ok_def printed_ok_def)



section \<open>The call stack is never popped\<close>

lemma trace_calls_Call_stack:
  "trace_calls func frame Call arg w = (r, w') \<Longrightarrow>
   take (length (CALL_STACK w)) (CALL_STACK w') = CALL_STACK w"
  by (auto simp: trace_calls_def Let_def split: if_splits)

lemma trace_lines_stack:
  "trace_lines func frame event arg w = (r, w') \<Longrightarrow> CALL_STACK w' = CALL_STACK w"
  by (auto simp: trace_lines_def Let_def split: if_splits prod.splits option.splits)

lemma command_loop_stack:
  "command_loop w = (r, w') \<Longrightarrow> CALL_STACK w' = CALL_STACK w"
  by (auto simp: command_loop_def split: if_splits prod.splits sum.splits)

lemma display_variables_stack:
  "display_variables ls w = (r, w') \<Longrightarrow> CALL_STACK w' = CALL_STACK w"
  by (auto simp: display_variables_def print_def split: if_splits sum.splits)

lemma debug_trace_calls_stack:
  "debug_trace_calls func bp frame event arg w = (r, w') \<Longrightarrow> CALL_STACK w' = CALL_STACK w"
  by (auto simp: debug_trace_calls_def Let_def print_def
      dest!: display_variables_stack command_loop_stack
      split: if_splits option.splits prod.splits sum.splits)

lemma apply_tracefn_stack:
  assumes "apply_tracefn t frame event arg w = (r, w')"
    and "event = Call \<or> \<not> is_trace_calls (Some t)"
  shows "take (length (CALL_STACK w)) (CALL_STACK w') = CALL_STACK w"
  using assms
  by (cases t) (auto dest: trace_calls_Call_stack trace_lines_stack debug_trace_calls_stack)

lemma deliver_stack:
  assumes "tracer_inv w" and "deliver ev w = (r, w')"
  shows "take (length (CALL_STACK w)) (CALL_STACK w') = CALL_STACK w"
proof -
  obtain frame event arg where ev: "ev = (frame, event, arg)" by (cases ev)
  have n: "\<not> is_trace_calls (f_trace w (f_id frame))"
    using assms(1) by (simp add: tracer_inv_def no_local_trace_calls_def)
  show ?thesis
    using assms(2) n unfolding ev deliver_def
    by (auto split: option.splits prod.splits sum.splits if_splits dest!: apply_tracefn_stack)
qed

lemma stack_prefix_trans:
  assumes "take (length xs) ys = xs" and "take (length ys) zs = ys"
  shows "take (length xs) zs = xs"
proof -
  have "length xs \<le> length ys"
    using assms(1) by (metis length_take min.cobounded1)
  then have "take (length xs) zs = take (length xs) (take (length ys) zs)"
    by (simp add: min_absorb1)
  then show ?thesis using assms by simp
qed

lemma run_events_stack:
  "tracer_inv w \<Longrightarrow> run_events evs w = (r, w') \<Longrightarrow>
   take (length (CALL_STACK w)) (CALL_STACK w') = CALL_STACK w"
proof (induction evs arbitrary: w)
  case Nil then show ?case by simp
next
  case (Cons ev evs)
  obtain r1 w1 where d: "deliver ev w = (r1, w1)" by (cases "deliver ev w")
  have i1: "tracer_inv w1" using deliver_inv [OF Cons.prems(1) d] .
  have s1: "take (length (CALL_STACK w)) (CALL_STACK w1) = CALL_STACK w"
    using deliver_stack [OF Cons.prems(1) d] .
  show ?case
  proof (cases r1)
    case (Inl e)
    then show ?thesis using Cons.prems(2) d s1 by simp
  next
    case (Inr u)
    then have "run_events evs w1 = (r, w')" using Cons.prems(2) d by simp
    from stack_prefix_trans [OF s1 Cons.IH [OF i1 this]] show ?thesis .
  qed
qed


lemma call_func_stack:
  "tracer_inv w \<Longrightarrow> call_func call w = (r, w') \<Longrightarrow>
   take (length (CALL_STACK w)) (CALL_STACK w') = CALL_STACK w"
  by (auto simp: call_func_def split: prod.splits option.splits outcome.splits
      dest: run_events_stack)

lemma wrapper_stack:
  assumes "tracer_inv w"
  shows "take (length (CALL_STACK w)) (CALL_STACK (snd (wrapper func call t_start t_end w)))
           = CALL_STACK w"
proof -
  obtain result w1 where c: "call_func call (w\<lparr>settrace := Some (Trace_calls func)\<rparr>) = (result, w1)"
    by (cases "call_func call (w\<lparr>settrace := Some (Trace_calls func)\<rparr>)")
  have "take (length (CALL_STACK w)) (CALL_STACK w1) = CALL_STACK w"
    using call_func_stack [OF _ c] assms by simp
  moreover have "CALL_STACK (snd (wrapper func call t_start t_end w)) = CALL_STACK w1"
    by (simp add: wrapper_def c Let_def print_def split: option.splits sum.splits)
  ultimately show ?thesis by simp
qed

lemma debug_function_sync_stack:
  assumes "tracer_inv w"
  shows "take (length (CALL_STACK w)) (CALL_STACK (snd (debug_function_sync func bp call w)))
           = CALL_STACK w"
proof -
  obtain r w1 where c: "call_func call (w\<lparr>step_mode := False,
      settrace := Some (Debug_trace_calls func bp)\<rparr>) = (r, w1)"
    by (cases "call_func call (w\<lparr>step_mode := False,
      settrace := Some (Debug_trace_calls func bp)\<rparr>)")
  have "take (length (CALL_STACK w)) (CALL_STACK w1) = CALL_STACK w"
    using call_func_stack [OF _ c] assms by simp
  then show ?thesis by (simp add: debug_function_sync_def c)
qed

text \<open>
  No decorated call ever pops \<open>CALL_STACK\<close>: in every state that a program reaches,
  the stack before a call is a prefix of the stack after it.
\<close>

lemma call_stack_never_pops:
  "take (length (CALL_STACK (run_sessions ss (initial ins))))
        (CALL_STACK (snd (run_session s (run_sessions ss (initial ins)))))
     = CALL_STACK (run_sessions ss (initial ins))"
  using run_sessions_inv [OF initial_inv, of ss ins]
  by (cases s) (simp_all add: wrapper_stack debug_function_sync_stack)

section \<open>The elapsed time\<close>






end
